theory Spec2Isabelle
  imports Complex_Main "HOL-Library.Sublist"
begin

section \<open>The recording hook: \<open>src/hooks/useAudioRecording.ts\<close>\<close>

subsection \<open>Data\<close>

text \<open>
  A \<open>Blob\<close> is an immutable byte sequence with a MIME type. \<open>blob.size\<close> is the number
  of bytes, and \<open>new Blob(parts, {type})\<close> holds the bytes of the parts, one after the
  other, in the order of the array.
\<close>

record blob =
  bytes :: "nat list"
  mime :: string

definition blob_size :: "blob \<Rightarrow> nat" where
  "blob_size b = length (bytes b)"

definition new_Blob :: "blob list \<Rightarrow> string \<Rightarrow> blob" where
  "new_Blob parts ty = \<lparr>bytes = concat (map bytes parts), mime = ty\<rparr>"

text \<open>\<open>interface ErrorState\<close>; the two optional fields are options.\<close>

record ErrorState =
  title :: string
  message :: string
  isPermissionError :: "bool option"
  errorId :: "string option"

text \<open>
  The state of one mounted hook: the five \<open>useState\<close> cells, the refs the handlers
  read and write, and what the hook has done to the world outside it: how often it
  asked for the microphone (\<open>getUserMediaCalls\<close>), the blobs it handed to
  \<open>onRecordingStop\<close> (\<open>delivered\<close>), the interval timers it cleared, and whether the
  tracks of the recorder's stream are live.
\<close>

record rec_state =
  isRecording :: bool
  recordingDuration :: nat
  bufferCount :: nat
  errorState :: "ErrorState option"
  permissionDenied :: bool
  mediaRecorderRef :: bool
  audioChunks :: "blob list"
  timerIntervalRef :: "nat option"
  getUserMediaCalls :: nat
  delivered :: "blob list"
  clearedIntervals :: "nat list"
  tracksLive :: bool

definition initial_rec_state :: rec_state where
  "initial_rec_state =
     \<lparr>isRecording = False, recordingDuration = 0, bufferCount = 0, errorState = None,
      permissionDenied = False, mediaRecorderRef = False, audioChunks = [],
      timerIntervalRef = None, getUserMediaCalls = 0, delivered = [],
      clearedIntervals = [], tracksLive = False\<rparr>"

text \<open>
  JavaScript truthiness of a ref holding \<open>number | null\<close>: \<open>null\<close> and \<open>0\<close> are
  falsy.
\<close>

definition truthy_id :: "nat option \<Rightarrow> bool" where
  "truthy_id r = (case r of None \<Rightarrow> False | Some n \<Rightarrow> n \<noteq> 0)"

subsection \<open>The rolling chunk buffer\<close>

definition MAX_RECORDING_CHUNKS :: nat where
  "MAX_RECORDING_CHUNKS = 300"

text \<open>
  \<open>array.splice(1, 1)\<close> removes one element at index 1 when there is one, and leaves a
  shorter array as it is.
\<close>

definition splice_1_1 :: "'a list \<Rightarrow> 'a list" where
  "splice_1_1 xs = take 1 xs @ drop 2 xs"

text \<open>
  Lines 142 to 147 of the handler, on the array alone and with the capacity as a
  parameter: \<open>push\<close>, then the eviction when the array has grown beyond the capacity.
\<close>

definition push_chunk :: "nat \<Rightarrow> 'a list \<Rightarrow> 'a \<Rightarrow> 'a list" where
  "push_chunk cap chunks d =
     (let pushed = chunks @ [d]
      in if length pushed > cap then splice_1_1 pushed else pushed)"

text \<open>\<open>mediaRecorder.ondataavailable\<close>, lines 140 to 150.\<close>

definition ondataavailable_cap :: "nat \<Rightarrow> rec_state \<Rightarrow> blob \<Rightarrow> rec_state" where
  "ondataavailable_cap cap s d =
     (if blob_size d > 0
      then let chunks = push_chunk cap (audioChunks s) d
           in s\<lparr>audioChunks := chunks, bufferCount := length chunks\<rparr>
      else s)"

definition ondataavailable :: "rec_state \<Rightarrow> blob \<Rightarrow> rec_state" where
  "ondataavailable = ondataavailable_cap MAX_RECORDING_CHUNKS"

subsection \<open>Finalisation\<close>

text \<open>
  \<open>mediaRecorder.onstop\<close>, lines 152 to 162. \<open>cb\<close> says whether the caller of the hook
  passed the optional \<open>onRecordingStop\<close>; calling it is recorded in \<open>delivered\<close>.
\<close>

definition onstop :: "bool \<Rightarrow> rec_state \<Rightarrow> rec_state" where
  "onstop cb s =
     (let s1 = (if truthy_id (timerIntervalRef s)
                then s\<lparr>clearedIntervals := clearedIntervals s @ [the (timerIntervalRef s)],
                       timerIntervalRef := None\<rparr>
                else s)
      in if length (audioChunks s1) > 0 \<and> cb
         then s1\<lparr>delivered := delivered s1 @ [new_Blob (audioChunks s1) ''audio/webm'']\<rparr>
         else s1)"

text \<open>\<open>getAudioBlob\<close>, lines 79 to 82.\<close>

definition getAudioBlob :: "rec_state \<Rightarrow> blob option" where
  "getAudioBlob s =
     (if length (audioChunks s) = 0 then None
      else Some (new_Blob (audioChunks s) ''audio/webm''))"

subsection \<open>Starting and stopping\<close>

text \<open>
  What the browser answers during one call of \<open>startRecording\<close>: the permissions
  query (absent API, a query that throws, or the reported state), \<open>getUserMedia\<close>
  (the name of the error it rejects with, or a stream), an exception thrown while the
  audio context is constructed right after the stream was obtained, and the id that
  \<open>setInterval\<close> returns.
\<close>

datatype permission_query = NoPermissionsAPI | QueryThrows | QueryState string

record start_env =
  permissions :: permission_query
  getUserMedia :: "string + unit"
  contextError :: "string option"
  timerId :: nat

definition still_blocked :: ErrorState where
  "still_blocked =
     \<lparr>title = ''Permission Still Blocked'',
      message = ''Microphone access is still blocked. Please click the lock icon in your browser's address bar, allow Microphone, then refresh the page.'',
      isPermissionError = Some True,
      errorId = Some ''permission-blocked-refresh''\<rparr>"

definition access_denied_query :: ErrorState where
  "access_denied_query =
     \<lparr>title = ''Access Denied'',
      message = ''Microphone access is blocked. Please click the lock icon in your browser's address bar, allow Microphone, then refresh the page.'',
      isPermissionError = Some True,
      errorId = Some ''permission-denied''\<rparr>"

definition access_denied_catch :: ErrorState where
  "access_denied_catch =
     \<lparr>title = ''Access Denied'',
      message = ''Microphone access blocked. Please click the lock icon in your browser's address bar, allow Microphone, then refresh the page.'',
      isPermissionError = Some True,
      errorId = Some ''permission-denied''\<rparr>"

definition mic_error :: ErrorState where
  "mic_error =
     \<lparr>title = ''Microphone Error'',
      message = ''Unable to access microphone. Please check permissions.'',
      isPermissionError = Some False,
      errorId = Some ''mic-error''\<rparr>"

text \<open>The \<open>catch\<close> block, lines 172 to 187, given \<open>err.name\<close>.\<close>

definition start_catch :: "string \<Rightarrow> rec_state \<Rightarrow> rec_state" where
  "start_catch name s =
     (if name = ''NotAllowedError'' \<or> name = ''PermissionDeniedError''
      then s\<lparr>permissionDenied := True, errorState := Some access_denied_catch\<rparr>
      else s\<lparr>errorState := Some mic_error\<rparr>)"

text \<open>
  \<open>startRecording\<close>, lines 84 to 188. Every \<open>return\<close> and every way into the
  \<open>catch\<close> block is a branch; \<open>getUserMediaCalls\<close> counts the calls of line 118.
\<close>

definition startRecording :: "start_env \<Rightarrow> rec_state \<Rightarrow> rec_state" where
  "startRecording env s =
     (if permissionDenied s then s\<lparr>errorState := Some still_blocked\<rparr>
      else if permissions env = QueryState ''denied''
      then s\<lparr>permissionDenied := True, errorState := Some access_denied_query\<rparr>
      else
        let s1 = s\<lparr>errorState := None, getUserMediaCalls := getUserMediaCalls s + 1\<rparr>
        in case getUserMedia env of
             Inl name \<Rightarrow> start_catch name s1
           | Inr _ \<Rightarrow>
               (let s2 = s1\<lparr>permissionDenied := False, tracksLive := True\<rparr>
                in (case contextError env of
                      Some name \<Rightarrow> start_catch name s2
                    | None \<Rightarrow>
                        s2\<lparr>mediaRecorderRef := True, audioChunks := [], bufferCount := 0,
                           recordingDuration := 0, isRecording := True,
                           timerIntervalRef := Some (timerId env)\<rparr>)))"

text \<open>
  \<open>stopRecording\<close>, lines 190 to 213 (the animation frame and the canvas belong to the
  drawing and are left out), \<open>clearError\<close>, and the tick of the duration timer.
\<close>

definition stopRecording :: "rec_state \<Rightarrow> rec_state" where
  "stopRecording s =
     (let s1 = (if mediaRecorderRef s \<and> isRecording s
                then s\<lparr>isRecording := False, tracksLive := False\<rparr> else s)
      in if truthy_id (timerIntervalRef s1)
         then s1\<lparr>clearedIntervals := clearedIntervals s1 @ [the (timerIntervalRef s1)],
                 timerIntervalRef := None\<rparr>
         else s1)"

definition clearError :: "rec_state \<Rightarrow> rec_state" where
  "clearError s = s\<lparr>errorState := None\<rparr>"

definition timer_tick :: "rec_state \<Rightarrow> rec_state" where
  "timer_tick s = s\<lparr>recordingDuration := recordingDuration s + 1\<rparr>"

text \<open>
  Everything that can happen to a mounted hook, one event at a time: the browser runs
  the handlers one after the other.
\<close>

datatype rec_event =
    StartRecording start_env
  | StopRecording
  | DataAvailable blob
  | RecorderStop
  | TimerTick
  | ClearError

fun rec_step :: "bool \<Rightarrow> rec_state \<Rightarrow> rec_event \<Rightarrow> rec_state" where
  "rec_step cb s (StartRecording env) = startRecording env s"
| "rec_step cb s StopRecording = stopRecording s"
| "rec_step cb s (DataAvailable d) = ondataavailable s d"
| "rec_step cb s RecorderStop = onstop cb s"
| "rec_step cb s TimerTick = timer_tick s"
| "rec_step cb s ClearError = clearError s"

definition rec_run :: "bool \<Rightarrow> rec_state \<Rightarrow> rec_event list \<Rightarrow> rec_state" where
  "rec_run cb = foldl (rec_step cb)"

section \<open>The live coach: \<open>src/components/LiveCoach.tsx\<close>\<close>

subsection \<open>Data\<close>

text \<open>
  The four values of \<open>status\<close>: \<open>'idle'\<close>, \<open>'connecting'\<close>, \<open>'connected'\<close> and
  \<open>'error'\<close>.
\<close>

datatype status = Idle | Connecting | Connected | Errored

text \<open>
  An \<open>AudioBuffer\<close>: its samples and its \<open>duration\<close> in seconds. Times on the clock
  of an audio context and durations are JavaScript numbers; they are taken as real
  numbers here, so rounding is not part of the model.
\<close>

record audio_buffer =
  pcm :: "nat list"
  duration :: real

text \<open>
  The state of one mounted component. \<open>isConnected\<close>, \<open>isMuted\<close>, \<open>volumeLevel\<close> and
  \<open>status\<close> are the \<open>useState\<close> cells as the latest render sees them; the refs
  follow. Audio contexts and animation frames are named by numbers.

  \<open>closureMuted\<close> is the value of \<open>isMuted\<close> in the render whose \<open>connect\<close> was
  called: the callbacks passed to \<open>ai.live.connect\<close> are created inside that call and
  close over that render's constant \<open>isMuted\<close>. \<open>processorInstalled\<close> says that
  \<open>onopen\<close> has assigned \<open>scriptProcessor.onaudioprocess\<close>.

  The remaining fields are the world outside the component: the contexts it closed,
  the frames it cancelled, whether the tracks of the microphone stream are live,
  whether the remote session is open, the payloads given to \<open>sendRealtimeInput\<close>, the
  buffers started with their start times, and the lines written by \<open>console.error\<close>.
\<close>

record live_state =
  isConnected :: bool
  isMuted :: bool
  volumeLevel :: real
  status :: status
  audioContextRef :: "nat option"
  inputContextRef :: "nat option"
  sessionRef :: bool
  outputNodeRef :: bool
  nextStartTimeRef :: real
  animationFrameRef :: "nat option"
  closureMuted :: bool
  processorInstalled :: bool
  closedContexts :: "nat list"
  cancelledFrames :: "nat list"
  micTracksLive :: bool
  sessionOpen :: bool
  sentFrames :: "(string \<times> string) list"
  started :: "(audio_buffer \<times> real) list"
  consoleErrors :: "string list"

definition initial_live_state :: live_state where
  "initial_live_state =
     \<lparr>isConnected = False, isMuted = False, volumeLevel = 0, status = Idle,
      audioContextRef = None, inputContextRef = None, sessionRef = False,
      outputNodeRef = False, nextStartTimeRef = 0, animationFrameRef = None,
      closureMuted = False, processorInstalled = False, closedContexts = [],
      cancelledFrames = [], micTracksLive = False, sessionOpen = False,
      sentFrames = [], started = [], consoleErrors = []\<rparr>"

subsection \<open>Teardown and connection\<close>

text \<open>\<open>disconnect\<close>, lines 27 to 47.\<close>

definition disconnect :: "live_state \<Rightarrow> live_state" where
  "disconnect s =
     (let s1 = (if truthy_id (animationFrameRef s)
                then s\<lparr>cancelledFrames := cancelledFrames s @ [the (animationFrameRef s)],
                       animationFrameRef := None\<rparr>
                else s);
          s2 = (case audioContextRef s1 of
                  Some c \<Rightarrow> s1\<lparr>closedContexts := closedContexts s1 @ [c],
                               audioContextRef := None\<rparr>
                | None \<Rightarrow> s1);
          s3 = (case inputContextRef s2 of
                  Some c \<Rightarrow> s2\<lparr>closedContexts := closedContexts s2 @ [c],
                               inputContextRef := None\<rparr>
                | None \<Rightarrow> s2)
      in s3\<lparr>isConnected := False, status := Idle, volumeLevel := 0\<rparr>)"

text \<open>
  What the browser answers during one call of \<open>connect\<close>: whether \<open>getUserMedia\<close>
  gives a stream, the two audio contexts it creates, and the first reading and frame id
  of the volume loop.
\<close>

record connect_env =
  micGranted :: bool
  inputContext :: nat
  outputContext :: nat
  firstVolume :: real
  firstFrame :: nat

text \<open>
  \<open>connect\<close>, lines 49 to 191, up to the point where the session promise is stored.
  The stream of line 56 is a local constant of the call and is stored nowhere else.
  When \<open>getUserMedia\<close> rejects, the \<open>catch\<close> block writes its line to the
  console, sets the status and calls \<open>disconnect\<close>.
\<close>

definition connect :: "connect_env \<Rightarrow> live_state \<Rightarrow> live_state" where
  "connect env s =
     (let s0 = s\<lparr>status := Connecting\<rparr>
      in if \<not> micGranted env
         then disconnect (s0\<lparr>consoleErrors := consoleErrors s0 @ [''Failed to connect''],
                             status := Errored\<rparr>)
         else s0\<lparr>micTracksLive := True,
                 inputContextRef := Some (inputContext env),
                 volumeLevel := firstVolume env * 1.5,
                 animationFrameRef := Some (firstFrame env),
                 audioContextRef := Some (outputContext env),
                 outputNodeRef := True,
                 nextStartTimeRef := 0,
                 closureMuted := isMuted s,
                 processorInstalled := False,
                 sessionRef := True\<rparr>)"

text \<open>The callbacks \<open>onopen\<close>, \<open>onclose\<close> and \<open>onerror\<close>, and \<open>toggleMute\<close>.\<close>

definition onopen :: "live_state \<Rightarrow> live_state" where
  "onopen s = s\<lparr>sessionOpen := True, isConnected := True, status := Connected,
                 processorInstalled := True\<rparr>"

definition onclose :: "live_state \<Rightarrow> live_state" where
  "onclose s = s\<lparr>sessionOpen := False, isConnected := False, status := Idle\<rparr>"

definition onerror :: "live_state \<Rightarrow> live_state" where
  "onerror s = disconnect (s\<lparr>consoleErrors := consoleErrors s @ [''Live Session Error''],
                             status := Errored\<rparr>)"

definition toggleMute :: "live_state \<Rightarrow> live_state" where
  "toggleMute s = s\<lparr>isMuted := \<not> isMuted s\<rparr>"

subsection \<open>Sending input frames\<close>

text \<open>
  \<open>scriptProcessor.onaudioprocess\<close>, lines 127 to 142. The handler is the one that
  \<open>onopen\<close> installed, so the \<open>isMuted\<close> it tests is \<open>closureMuted\<close>. \<open>encode\<close>
  stands for \<open>base64Encode (floatTo16BitPCM inputData)\<close> of \<open>utils/audioUtils\<close>.
\<close>

definition onaudioprocess :: "('f \<Rightarrow> string) \<Rightarrow> live_state \<Rightarrow> 'f \<Rightarrow> live_state" where
  "onaudioprocess encode s inputData =
     (if \<not> processorInstalled s then s
      else if closureMuted s then s
      else s\<lparr>sentFrames := sentFrames s @ [(''audio/pcm;rate=16000'', encode inputData)]\<rparr>)"

subsection \<open>Scheduling playback\<close>

text \<open>
  \<open>onmessage\<close>, lines 144 to 170. \<open>base64Audio\<close> is the optional string read from
  the message (an absent or empty one is falsy); \<open>currentTime\<close> is what
  \<open>outputContext.currentTime\<close> reads when the handler runs. \<open>decode\<close> stands for
  \<open>pcmToAudioBuffer (base64ToBytes base64Audio, outputContext, 24000)\<close> of
  \<open>utils/audioUtils\<close>: it throws (\<open>Inl\<close>) or gives a buffer. An exception inside the
  \<open>try\<close> block ends in the \<open>catch\<close> block, which writes one line to the console.
\<close>

definition onmessage ::
  "(string \<Rightarrow> string + audio_buffer) \<Rightarrow> live_state \<Rightarrow> string option \<Rightarrow> real \<Rightarrow> live_state" where
  "onmessage decode s base64Audio currentTime =
     (case base64Audio of
        None \<Rightarrow> s
      | Some a \<Rightarrow>
          if a \<noteq> [] \<and> outputNodeRef s
          then case decode a of
                 Inl e \<Rightarrow> s\<lparr>consoleErrors := consoleErrors s @ [''Error decoding audio chunk'']\<rparr>
               | Inr audioBuffer \<Rightarrow>
                   let next = (if nextStartTimeRef s < currentTime then currentTime
                               else nextStartTimeRef s)
                   in s\<lparr>started := started s @ [(audioBuffer, next)],
                        nextStartTimeRef := next + duration audioBuffer\<rparr>
          else s)"

text \<open>A run of messages, each with the reading of the clock at its arrival.\<close>

definition onmessages ::
  "(string \<Rightarrow> string + audio_buffer) \<Rightarrow> live_state \<Rightarrow> (string option \<times> real) list \<Rightarrow> live_state" where
  "onmessages decode = foldl (\<lambda>s (m, t). onmessage decode s m t)"

subsection \<open>A sample browser\<close>

text \<open>
  Concrete answers of the browser, for running the handlers on explicit inputs: a
  \<open>connect\<close> that is granted the microphone, and a decoder that knows three payloads,
  of durations 1, 1.5 and 0.5 seconds, and throws on every other one.
\<close>

definition sample_connect_env :: connect_env where
  "sample_connect_env =
     \<lparr>micGranted = True, inputContext = 1, outputContext = 2, firstVolume = 0, firstFrame = 1\<rparr>"

definition sample_decode :: "string \<Rightarrow> string + audio_buffer" where
  "sample_decode a =
     (if a = ''AAAA'' then Inr \<lparr>pcm = [0, 0], duration = 1\<rparr>
      else if a = ''AAAAAA=='' then Inr \<lparr>pcm = [0, 0, 0], duration = 1.5\<rparr>
      else if a = ''AA=='' then Inr \<lparr>pcm = [0], duration = 0.5\<rparr>
      else Inl ''InvalidCharacterError'')"

section \<open>Request failures: \<open>DraftingAssistant.tsx\<close> and the research assistant\<close>

text \<open>
  \<open>String.prototype.includes\<close> on byte strings. The marks searched for below are
  ASCII, and an ASCII byte of a UTF-8 string is always a character of its own, so
  searching the bytes finds what searching the characters finds.
\<close>

fun str_includes :: "string \<Rightarrow> string \<Rightarrow> bool" where
  "str_includes [] sub = (sub = [])"
| "str_includes (c # cs) sub = (prefix sub (c # cs) \<or> str_includes cs sub)"

text \<open>
  \<open>String.prototype.toLowerCase\<close> also maps characters outside ASCII, some of them
  to ASCII letters, so it is not fixed here: the \<open>catch\<close> blocks below take it as
  the parameter \<open>lower\<close>. \<open>ascii_toLowerCase\<close> is what it does on a string of ASCII
  characters, and is used on such strings only.
\<close>

definition lower_char :: "char \<Rightarrow> char" where
  "lower_char c =
     (let n = (of_char c :: nat) in if 65 \<le> n \<and> n \<le> 90 then char_of (n + 32) else c)"

definition ascii_toLowerCase :: "string \<Rightarrow> string" where
  "ascii_toLowerCase = map lower_char"

text \<open>
  The value a rejected request is caught with: \<open>null\<close> or \<open>undefined\<close>, on which
  \<open>error.toString()\<close> throws a \<open>TypeError\<close>, or a value whose \<open>toString()\<close>
  returns the given description.
\<close>

datatype rejection = Nullish | Thrown string

text \<open>
  The \<open>catch\<close> block of \<open>processAudioBlob\<close>, lines 154 to 176 of
  \<open>DraftingAssistant.tsx\<close>: first the chain of tests, from \<open>errString\<close> to the
  error it sets.
\<close>

definition processAudioBlob_error :: "string \<Rightarrow> ErrorState" where
  "processAudioBlob_error errString =
     (if str_includes errString ''safety'' \<or> str_includes errString ''blocked''
      then \<lparr>title = ''Content Flagged'',
            message = ''The content was flagged by safety filters. Please try rephrasing.'',
            isPermissionError = None, errorId = None\<rparr>
      else if str_includes errString ''429'' \<or> str_includes errString ''resource exhausted''
      then \<lparr>title = ''High Traffic'',
            message = ''Mozhi is very popular right now! Please wait a moment and try again.'',
            isPermissionError = None, errorId = None\<rparr>
      else if str_includes errString ''no response generated'' \<or> str_includes errString ''candidate''
      then \<lparr>title = ''Audio Unclear'',
            message = ''We couldn't hear you clearly. Please speak closer to the microphone.'',
            isPermissionError = None, errorId = None\<rparr>
      else if str_includes errString ''network'' \<or> str_includes errString ''fetch''
      then \<lparr>title = ''Connection Error'',
            message = ''Please check your internet connection and try again.'',
            isPermissionError = None, errorId = None\<rparr>
      else \<lparr>title = ''Processing Failed'',
            message = ''An unexpected error occurred. Please try again.'',
            isPermissionError = None, errorId = None\<rparr>)"

text \<open>
  The whole \<open>catch\<close> block, from the caught value to the error passed to
  \<open>setProcessingError\<close>: \<open>errString\<close> is \<open>error.toString().toLowerCase()\<close>. When
  \<open>toString\<close> throws, the block is left by that exception and no error is set.
\<close>

definition processAudioBlob_catch :: "(string \<Rightarrow> string) \<Rightarrow> rejection \<Rightarrow> string + ErrorState" where
  "processAudioBlob_catch lower error =
     (case error of
        Nullish \<Rightarrow> Inl ''TypeError''
      | Thrown description \<Rightarrow> Inr (processAudioBlob_error (lower description)))"

text \<open>
  The \<open>catch\<close> block of \<open>handleRecordingStop\<close> of the research assistant, lines 58
  to 79.
\<close>

definition handleRecordingStop_error :: "string \<Rightarrow> ErrorState" where
  "handleRecordingStop_error errString =
     (if str_includes errString ''safety'' \<or> str_includes errString ''blocked''
      then \<lparr>title = ''Content Flagged'',
            message = ''The content was flagged by safety filters. Please try rephrasing.'',
            isPermissionError = None, errorId = None\<rparr>
      else if str_includes errString ''429'' \<or> str_includes errString ''resource exhausted''
      then \<lparr>title = ''System Busy'',
            message = ''System is busy. Please wait a moment and try again.'',
            isPermissionError = None, errorId = None\<rparr>
      else if str_includes errString ''no response generated'' \<or> str_includes errString ''candidate''
      then \<lparr>title = ''Audio Unclear'',
            message = ''Could not clearly understand the audio. Please speak closer to the microphone.'',
            isPermissionError = None, errorId = None\<rparr>
      else if str_includes errString ''network'' \<or> str_includes errString ''fetch''
      then \<lparr>title = ''Connection Error'',
            message = ''Network connection failed. Please check your internet.'',
            isPermissionError = None, errorId = None\<rparr>
      else \<lparr>title = ''Processing Failed'',
            message = ''An unexpected error occurred processing your request.'',
            isPermissionError = None, errorId = None\<rparr>)"

definition handleRecordingStop_catch :: "(string \<Rightarrow> string) \<Rightarrow> rejection \<Rightarrow> string + ErrorState" where
  "handleRecordingStop_catch lower error =
     (case error of
        Nullish \<Rightarrow> Inl ''TypeError''
      | Thrown description \<Rightarrow> Inr (handleRecordingStop_error (lower description)))"

subsection \<open>The categories as the specification words them\<close>

text \<open>
  The specification names five categories and the order in which they are tried: the
  first category one of whose marks occurs in the description wins, and a description
  with no mark is generic.
\<close>

datatype category = SafetyFlag | RateLimit | UnclearInput | Network | Generic

definition category_marks :: "(category \<times> string list) list" where
  "category_marks =
     [(SafetyFlag, [''safety'', ''blocked'']),
      (RateLimit, [''429'', ''resource exhausted'']),
      (UnclearInput, [''no response generated'', ''candidate'']),
      (Network, [''network'', ''fetch''])]"

fun first_category :: "(category \<times> string list) list \<Rightarrow> string \<Rightarrow> category" where
  "first_category [] d = Generic"
| "first_category ((c, marks) # rest) d =
     (if list_ex (str_includes d) marks then c else first_category rest d)"

definition spec_category :: "string \<Rightarrow> category" where
  "spec_category d = first_category category_marks d"

text \<open>The title each of the two components shows for a category.\<close>

fun draft_title :: "category \<Rightarrow> string" where
  "draft_title SafetyFlag = ''Content Flagged''"
| "draft_title RateLimit = ''High Traffic''"
| "draft_title UnclearInput = ''Audio Unclear''"
| "draft_title Network = ''Connection Error''"
| "draft_title Generic = ''Processing Failed''"

fun research_title :: "category \<Rightarrow> string" where
  "research_title SafetyFlag = ''Content Flagged''"
| "research_title RateLimit = ''System Busy''"
| "research_title UnclearInput = ''Audio Unclear''"
| "research_title Network = ''Connection Error''"
| "research_title Generic = ''Processing Failed''"

section \<open>Properties of the chunk buffer\<close>

lemma push_chunk_empty: "push_chunk cap [] d = [d]"
  by (auto simp: push_chunk_def splice_1_1_def Let_def)

lemma push_chunk_Cons:
  "push_chunk cap (h # t) d = (if length t + 2 \<le> cap then h # t @ [d] else h # tl (t @ [d]))"
  by (cases t) (auto simp: push_chunk_def splice_1_1_def Let_def)

lemma push_chunk_fits: "length xs < cap \<Longrightarrow> push_chunk cap xs d = xs @ [d]"
  by (simp add: push_chunk_def Let_def)

lemma push_chunk_evicts:
  assumes "1 \<le> cap" "cap \<le> length xs"
  shows "length (push_chunk cap xs d) = length xs"
    and "push_chunk cap xs d ! 0 = (xs @ [d]) ! 0"
    and "1 \<le> i \<Longrightarrow> i < length xs \<Longrightarrow> push_chunk cap xs d ! i = (xs @ [d]) ! (i + 1)"
proof -
  from assms obtain h t where xs: "xs = h # t" by (cases xs) auto
  with assms have big: "\<not> length t + 2 \<le> cap" by simp
  show "length (push_chunk cap xs d) = length xs"
    using big by (simp add: xs push_chunk_Cons)
  show "push_chunk cap xs d ! 0 = (xs @ [d]) ! 0"
    by (simp add: xs push_chunk_Cons)
  show "push_chunk cap xs d ! i = (xs @ [d]) ! (i + 1)" if "1 \<le> i" "i < length xs"
  proof -
    from that obtain j where i: "i = Suc j" by (cases i) auto
    have "tl (t @ [d]) ! j = (t @ [d]) ! Suc j"
      using that i xs by (simp add: nth_tl)
    then show ?thesis using big by (simp add: xs i push_chunk_Cons)
  qed
qed

lemma push_chunk_subseq: "subseq (push_chunk cap xs d) (xs @ [d])"
proof (cases xs)
  case Nil
  then show ?thesis by (simp add: push_chunk_empty)
next
  case (Cons h t)
  have "subseq (tl (t @ [d])) (t @ [d])"
    by (cases "t @ [d]") auto
  then show ?thesis by (auto simp: Cons push_chunk_Cons)
qed

lemma tl_drop_snoc: "k \<le> length t \<Longrightarrow> tl (drop k t @ [d]) = drop (Suc k) (t @ [d])"
proof (induction t arbitrary: k)
  case Nil
  then show ?case by simp
next
  case (Cons a t)
  then show ?case by (cases k) simp_all
qed

lemma foldl_push_chunk_closed:
  assumes "1 \<le> cap"
  shows "foldl (push_chunk cap) [] ds =
         (if length ds \<le> cap then ds else take 1 ds @ drop (length ds - cap + 1) ds)"
proof (induction ds rule: rev_induct)
  case Nil
  then show ?case by simp
next
  case (snoc d ds)
  show ?case
  proof (cases "length ds < cap")
    case True
    with snoc show ?thesis by (simp add: push_chunk_fits)
  next
    case False
    then obtain h t where ds: "ds = h # t" using assms by (cases ds) auto
    show ?thesis
    proof (cases "length ds = cap")
      case True
      then have "foldl (push_chunk cap) [] (ds @ [d]) = push_chunk cap (h # t) d"
        using snoc by (simp add: ds)
      also have "\<dots> = h # tl (t @ [d])"
        using True by (simp add: ds push_chunk_Cons)
      also have "tl (t @ [d]) = drop (Suc 0) (t @ [d])"
        using tl_drop_snoc [of 0 t d] by simp
      finally show ?thesis using True by (simp add: ds)
    next
      case F2: False
      with False have gt: "cap < length ds" by simp
      define k where "k = length ds - cap"
      have k: "k \<le> length t" "length ds - cap + 1 = Suc k" "length (ds @ [d]) - cap + 1 = Suc (Suc k)"
        using gt assms by (auto simp: k_def ds)
      have "foldl (push_chunk cap) [] (ds @ [d]) = push_chunk cap (h # drop k t) d"
        using snoc gt k by (simp add: ds)
      also have "\<dots> = h # tl (drop k t @ [d])"
        using gt assms by (simp add: push_chunk_Cons k_def ds)
      also have "tl (drop k t @ [d]) = drop (Suc k) (t @ [d])"
        using k(1) by (rule tl_drop_snoc)
      finally show ?thesis using gt k by (simp add: ds)
    qed
  qed
qed

lemma set_push_chunk: "set (push_chunk cap xs d) \<subseteq> insert d (set xs)"
proof (cases xs)
  case Nil
  then show ?thesis by (simp add: push_chunk_empty)
next
  case (Cons h t)
  have "set (tl (t @ [d])) \<subseteq> set (t @ [d])"
    by (cases "t @ [d]") auto
  then show ?thesis by (auto simp: Cons push_chunk_Cons)
qed

lemma foldl_push_chunk_subseq: "subseq (foldl (push_chunk cap) xs ds) (xs @ ds)"
proof (induction ds rule: rev_induct)
  case Nil
  then show ?case by simp
next
  case (snoc d ds)
  have "subseq (push_chunk cap (foldl (push_chunk cap) xs ds) d) (foldl (push_chunk cap) xs ds @ [d])"
    by (rule push_chunk_subseq)
  also have "subseq (foldl (push_chunk cap) xs ds @ [d]) ((xs @ ds) @ [d])"
    using snoc by (intro list_emb_append_mono) auto
  finally show ?case by simp
qed

lemma audioChunks_ondataavailable_cap:
  "audioChunks (ondataavailable_cap cap s d) =
     (if 0 < blob_size d then push_chunk cap (audioChunks s) d else audioChunks s)"
  by (simp add: ondataavailable_cap_def Let_def)

lemma audioChunks_foldl_ondataavailable_cap:
  "audioChunks (foldl (ondataavailable_cap cap) s evs) =
     foldl (push_chunk cap) (audioChunks s) (filter (\<lambda>d. 0 < blob_size d) evs)"
  by (induction evs arbitrary: s) (simp_all add: audioChunks_ondataavailable_cap)

lemma foldl_ondataavailable_cap_filter:
  "foldl (ondataavailable_cap cap) s evs =
     foldl (ondataavailable_cap cap) s (filter (\<lambda>d. 0 < blob_size d) evs)"
  by (induction evs arbitrary: s) (simp_all add: ondataavailable_cap_def)

lemma length_foldl_push_chunk:
  assumes "1 \<le> cap"
  shows "length (foldl (push_chunk cap) [] ds) \<le> cap"
  using assms by (simp add: foldl_push_chunk_closed)

lemma head_foldl_push_chunk:
  assumes "1 \<le> cap"
  shows "foldl (push_chunk cap) [] (h # ds) \<noteq> [] \<and> foldl (push_chunk cap) [] (h # ds) ! 0 = h"
  unfolding foldl_push_chunk_closed [OF assms] by simp

text \<open>
  Claim C1. A recording session starts with an empty chunk array. Whatever chunk-ready
  events follow, the array never holds more than \<open>MAX_RECORDING_CHUNKS\<close> chunks, and
  as soon as one chunk of positive size has arrived, index 0 holds the first such chunk
  of the session: the header chunk is never evicted.
\<close>

theorem buffer_bounded_header_kept:
  assumes "audioChunks s = []"
  shows "MAX_RECORDING_CHUNKS = 300 \<and>
         length (audioChunks (foldl ondataavailable s evs)) \<le> MAX_RECORDING_CHUNKS \<and>
         (case filter (\<lambda>d. 0 < blob_size d) evs of
            [] \<Rightarrow> audioChunks (foldl ondataavailable s evs) = []
          | h # rest \<Rightarrow> audioChunks (foldl ondataavailable s evs) \<noteq> [] \<and>
                        audioChunks (foldl ondataavailable s evs) ! 0 = h)"
proof -
  have cap: "1 \<le> MAX_RECORDING_CHUNKS" by (simp add: MAX_RECORDING_CHUNKS_def)
  have eq: "audioChunks (foldl ondataavailable s evs) =
            foldl (push_chunk MAX_RECORDING_CHUNKS) [] (filter (\<lambda>d. 0 < blob_size d) evs)"
    using assms by (simp add: ondataavailable_def audioChunks_foldl_ondataavailable_cap)
  show ?thesis
  proof (cases "filter (\<lambda>d. 0 < blob_size d) evs")
    case Nil
    then show ?thesis by (simp add: eq MAX_RECORDING_CHUNKS_def)
  next
    case (Cons h rest)
    show ?thesis
      unfolding eq Cons list.case
      using length_foldl_push_chunk [OF cap, of "h # rest"]
        head_foldl_push_chunk [OF cap, of h rest] MAX_RECORDING_CHUNKS_def
      by blast
  qed
qed

theorem buffer_bounded_header_kept_witness:
  "audioChunks initial_rec_state = [] \<and>
   length (audioChunks (foldl ondataavailable initial_rec_state
      [\<lparr>bytes = [], mime = ''audio/webm''\<rparr>, \<lparr>bytes = [26, 69], mime = ''audio/webm''\<rparr>,
       \<lparr>bytes = [7], mime = ''audio/webm''\<rparr>])) \<le> MAX_RECORDING_CHUNKS \<and>
   audioChunks (foldl ondataavailable initial_rec_state
      [\<lparr>bytes = [], mime = ''audio/webm''\<rparr>, \<lparr>bytes = [26, 69], mime = ''audio/webm''\<rparr>,
       \<lparr>bytes = [7], mime = ''audio/webm''\<rparr>]) ! 0 = \<lparr>bytes = [26, 69], mime = ''audio/webm''\<rparr>"
proof -
  have h: "audioChunks initial_rec_state = []" by (simp add: initial_rec_state_def)
  show ?thesis
    using h buffer_bounded_header_kept [OF h, of
      "[\<lparr>bytes = [], mime = ''audio/webm''\<rparr>, \<lparr>bytes = [26, 69], mime = ''audio/webm''\<rparr>,
        \<lparr>bytes = [7], mime = ''audio/webm''\<rparr>]"]
    by (simp add: blob_size_def)
qed

lemma list_all_push_chunk:
  "list_all P xs \<Longrightarrow> P d \<Longrightarrow> list_all P (push_chunk cap xs d)"
  using set_push_chunk [of cap xs d] by (auto simp: list_all_iff)

lemma list_all_foldl_push_chunk:
  "list_all P xs \<Longrightarrow> list_all P ds \<Longrightarrow> list_all P (foldl (push_chunk cap) xs ds)"
  by (induction ds arbitrary: xs) (simp_all add: list_all_push_chunk)

text \<open>
  Claim C3. A chunk of positive size is pushed at the end of the array. For a capacity
  of at least one: when the array with the new chunk fits the capacity it is kept as it
  is; when it is longer, the chunk at index 1 is removed, so index 0 stays, every later
  chunk moves one place down and the length is the old one. The survivors keep their
  order of insertion, a run of pushes into the empty array leaves the first chunk and
  the latest \<open>cap - 1\<close> ones, and with capacity 5 the eight chunks
  \<open>h, c1, \<dots>, c7\<close> leave \<open>h, c4, c5, c6, c7\<close>.
\<close>

theorem push_appends_then_evicts_index_1:
  assumes "1 \<le> cap"
  shows "(0 < blob_size d \<longrightarrow>
            audioChunks (ondataavailable s d) = push_chunk MAX_RECORDING_CHUNKS (audioChunks s) d) \<and>
         (length (xs @ [c]) \<le> cap \<longrightarrow> push_chunk cap xs c = xs @ [c]) \<and>
         (cap < length (xs @ [c]) \<longrightarrow>
            length (push_chunk cap xs c) = length xs \<and>
            push_chunk cap xs c ! 0 = (xs @ [c]) ! 0 \<and>
            (\<forall>i. 1 \<le> i \<and> i < length xs \<longrightarrow> push_chunk cap xs c ! i = (xs @ [c]) ! (i + 1))) \<and>
         subseq (foldl (push_chunk cap) [] ds) ds \<and>
         foldl (push_chunk cap) [] ds =
           (if length ds \<le> cap then ds else take 1 ds @ drop (length ds - cap + 1) ds) \<and>
         foldl (push_chunk 5) [] [h, c1, c2, c3, c4, c5, c6, c7] = [h, c4, c5, c6, c7]"
proof -
  have a: "0 < blob_size d \<longrightarrow>
      audioChunks (ondataavailable s d) = push_chunk MAX_RECORDING_CHUNKS (audioChunks s) d"
    by (simp add: ondataavailable_def audioChunks_ondataavailable_cap)
  have b: "length (xs @ [c]) \<le> cap \<longrightarrow> push_chunk cap xs c = xs @ [c]"
    by (simp add: push_chunk_fits)
  have c: "cap < length (xs @ [c]) \<longrightarrow>
            length (push_chunk cap xs c) = length xs \<and>
            push_chunk cap xs c ! 0 = (xs @ [c]) ! 0 \<and>
            (\<forall>i. 1 \<le> i \<and> i < length xs \<longrightarrow> push_chunk cap xs c ! i = (xs @ [c]) ! (i + 1))"
    using push_chunk_evicts [where cap = cap and xs = xs and d = c] assms by auto
  have d: "subseq (foldl (push_chunk cap) [] ds) ds"
    using foldl_push_chunk_subseq [of cap "[]" ds] by simp
  have e: "foldl (push_chunk cap) [] ds =
           (if length ds \<le> cap then ds else take 1 ds @ drop (length ds - cap + 1) ds)"
    by (rule foldl_push_chunk_closed [OF assms])
  have f: "foldl (push_chunk 5) [] [h, c1, c2, c3, c4, c5, c6, c7] = [h, c4, c5, c6, c7]"
    by (simp add: push_chunk_def splice_1_1_def Let_def)
  from a b c d e f show ?thesis by blast
qed

theorem push_appends_then_evicts_index_1_witness:
  "(1::nat) \<le> 2 \<and>
   0 < blob_size \<lparr>bytes = [26, 69], mime = ''audio/webm''\<rparr> \<and>
   audioChunks (ondataavailable initial_rec_state \<lparr>bytes = [26, 69], mime = ''audio/webm''\<rparr>) =
     [\<lparr>bytes = [26, 69], mime = ''audio/webm''\<rparr>] \<and>
   length ([10::nat] @ [20]) \<le> 2 \<and> push_chunk 2 [10::nat] 20 = [10, 20] \<and>
   2 < length ([10::nat, 20] @ [30]) \<and> push_chunk 2 [10::nat, 20] 30 = [10, 30] \<and>
   (1::nat) \<le> 1 \<and> (1::nat) < length [10::nat, 20] \<and>
   push_chunk 2 [10::nat, 20] 30 ! 1 = ([10, 20] @ [30]) ! (1 + 1)"
proof -
  have h: "(1::nat) \<le> 2" by simp
  note t1 = push_appends_then_evicts_index_1 [OF h, of
      "\<lparr>bytes = [26, 69], mime = ''audio/webm''\<rparr>" initial_rec_state "[10::nat]" 20]
  note t2 = push_appends_then_evicts_index_1 [OF h, of
      "\<lparr>bytes = [26, 69], mime = ''audio/webm''\<rparr>" initial_rec_state "[10::nat, 20]" 30]
  have s: "0 < blob_size \<lparr>bytes = [26, 69], mime = ''audio/webm''\<rparr>"
    by (simp add: blob_size_def)
  have e: "push_chunk MAX_RECORDING_CHUNKS (audioChunks initial_rec_state)
             \<lparr>bytes = [26, 69], mime = ''audio/webm''\<rparr> = [\<lparr>bytes = [26, 69], mime = ''audio/webm''\<rparr>]"
    by (simp add: initial_rec_state_def push_chunk_empty)
  from t1 [THEN conjunct1] s e
  have "audioChunks (ondataavailable initial_rec_state \<lparr>bytes = [26, 69], mime = ''audio/webm''\<rparr>) =
     [\<lparr>bytes = [26, 69], mime = ''audio/webm''\<rparr>]" by simp
  moreover from t1 [THEN conjunct2, THEN conjunct1]
  have "push_chunk 2 [10::nat] 20 = [10, 20]" by simp
  moreover from t2 [THEN conjunct2, THEN conjunct2, THEN conjunct1]
  have "push_chunk 2 [10::nat, 20] 30 ! 1 = ([10, 20] @ [30]) ! (1 + 1)" by simp
  moreover have "push_chunk 2 [10::nat, 20] 30 = [10, 30]"
    by (simp add: push_chunk_def splice_1_1_def)
  ultimately show ?thesis using s by simp
qed

text \<open>
  Claim C10. A chunk-ready event whose data has size zero leaves the whole state of the
  hook as it was, chunk array and buffer count included, so a run of events ends in the
  same state as the run of its events of positive size; and an array holding only
  chunks of positive size holds only such chunks after any run of events.
\<close>

theorem zero_size_chunk_is_noop:
  "(blob_size d = 0 \<longrightarrow> ondataavailable s d = s) \<and>
   foldl ondataavailable s evs = foldl ondataavailable s (filter (\<lambda>d. 0 < blob_size d) evs) \<and>
   (list_all (\<lambda>c. 0 < blob_size c) (audioChunks s) \<longrightarrow>
      list_all (\<lambda>c. 0 < blob_size c) (audioChunks (foldl ondataavailable s evs)))"
proof -
  have a: "blob_size d = 0 \<longrightarrow> ondataavailable s d = s"
    by (simp add: ondataavailable_def ondataavailable_cap_def)
  have b: "foldl ondataavailable s evs = foldl ondataavailable s (filter (\<lambda>d. 0 < blob_size d) evs)"
    unfolding ondataavailable_def by (rule foldl_ondataavailable_cap_filter)
  have c: "list_all (\<lambda>c. 0 < blob_size c) (audioChunks s) \<longrightarrow>
      list_all (\<lambda>c. 0 < blob_size c) (audioChunks (foldl ondataavailable s evs))"
  proof
    assume kept: "list_all (\<lambda>c. 0 < blob_size c) (audioChunks s)"
    have new: "list_all (\<lambda>c. 0 < blob_size c) (filter (\<lambda>d. 0 < blob_size d) evs)"
      by (simp add: list_all_iff)
    show "list_all (\<lambda>c. 0 < blob_size c) (audioChunks (foldl ondataavailable s evs))"
      unfolding ondataavailable_def audioChunks_foldl_ondataavailable_cap
      using kept new by (rule list_all_foldl_push_chunk)
  qed
  from a b c show ?thesis by blast
qed

theorem zero_size_chunk_is_noop_witness:
  "blob_size \<lparr>bytes = [], mime = ''audio/webm''\<rparr> = 0 \<and>
   ondataavailable (initial_rec_state\<lparr>audioChunks := [\<lparr>bytes = [26, 69], mime = ''audio/webm''\<rparr>], bufferCount := 1\<rparr>)
      \<lparr>bytes = [], mime = ''audio/webm''\<rparr> =
     initial_rec_state\<lparr>audioChunks := [\<lparr>bytes = [26, 69], mime = ''audio/webm''\<rparr>], bufferCount := 1\<rparr> \<and>
   list_all (\<lambda>c. 0 < blob_size c)
     (audioChunks (initial_rec_state\<lparr>audioChunks := [\<lparr>bytes = [26, 69], mime = ''audio/webm''\<rparr>], bufferCount := 1\<rparr>)) \<and>
   list_all (\<lambda>c. 0 < blob_size c)
     (audioChunks (foldl ondataavailable
        (initial_rec_state\<lparr>audioChunks := [\<lparr>bytes = [26, 69], mime = ''audio/webm''\<rparr>], bufferCount := 1\<rparr>)
        [\<lparr>bytes = [], mime = ''audio/webm''\<rparr>, \<lparr>bytes = [7], mime = ''audio/webm''\<rparr>]))"
proof -
  have z: "blob_size \<lparr>bytes = [], mime = ''audio/webm''\<rparr> = 0"
    by (simp add: blob_size_def)
  have l: "list_all (\<lambda>c. 0 < blob_size c)
     (audioChunks (initial_rec_state\<lparr>audioChunks := [\<lparr>bytes = [26, 69], mime = ''audio/webm''\<rparr>], bufferCount := 1\<rparr>))"
    by (simp add: blob_size_def)
  show ?thesis
    using z l zero_size_chunk_is_noop [of "\<lparr>bytes = [], mime = ''audio/webm''\<rparr>"
        "initial_rec_state\<lparr>audioChunks := [\<lparr>bytes = [26, 69], mime = ''audio/webm''\<rparr>], bufferCount := 1\<rparr>"
        "[\<lparr>bytes = [], mime = ''audio/webm''\<rparr>, \<lparr>bytes = [7], mime = ''audio/webm''\<rparr>]"]
    by blast
qed

section \<open>Properties of finalisation and of the permission gate\<close>

lemma delivered_onstop:
  "delivered (onstop cb s) =
     (if audioChunks s \<noteq> [] \<and> cb
      then delivered s @ [new_Blob (audioChunks s) ''audio/webm''] else delivered s)"
  by (simp add: onstop_def Let_def)

lemma onstop_keeps:
  "audioChunks (onstop cb s) = audioChunks s \<and> errorState (onstop cb s) = errorState s"
  by (simp add: onstop_def Let_def)

text \<open>
  Claim C5. When the recorder stops with an empty chunk array, nothing is handed to the
  consumer and no error is set, whether a callback was passed or not. When the array
  is not empty, the callback that was passed receives one blob whose bytes are the
  bytes of the buffered chunks in order. So the callback is called exactly when the
  array is not empty. \<open>stopRecording\<close> itself hands over nothing, and the array is
  only read.
\<close>

theorem stop_finalises_iff_nonempty:
  "(audioChunks s = [] \<longrightarrow>
      delivered (onstop cb s) = delivered s \<and> errorState (onstop cb s) = errorState s) \<and>
   (audioChunks s \<noteq> [] \<longrightarrow>
      delivered (onstop True s) = delivered s @ [new_Blob (audioChunks s) ''audio/webm''] \<and>
      bytes (new_Blob (audioChunks s) ''audio/webm'') = concat (map bytes (audioChunks s))) \<and>
   (delivered (onstop True s) \<noteq> delivered s) = (audioChunks s \<noteq> []) \<and>
   delivered (onstop False s) = delivered s \<and>
   delivered (stopRecording s) = delivered s \<and>
   audioChunks (onstop cb s) = audioChunks s"
proof -
  have a: "audioChunks s = [] \<longrightarrow>
      delivered (onstop cb s) = delivered s \<and> errorState (onstop cb s) = errorState s"
    by (simp add: delivered_onstop onstop_keeps)
  have b: "audioChunks s \<noteq> [] \<longrightarrow>
      delivered (onstop True s) = delivered s @ [new_Blob (audioChunks s) ''audio/webm''] \<and>
      bytes (new_Blob (audioChunks s) ''audio/webm'') = concat (map bytes (audioChunks s))"
    by (simp add: delivered_onstop new_Blob_def)
  have c: "(delivered (onstop True s) \<noteq> delivered s) = (audioChunks s \<noteq> [])"
    by (simp add: delivered_onstop)
  have d: "delivered (onstop False s) = delivered s"
    by (simp add: delivered_onstop)
  have e: "delivered (stopRecording s) = delivered s"
    by (simp add: stopRecording_def Let_def)
  have f: "audioChunks (onstop cb s) = audioChunks s"
    by (simp add: onstop_keeps)
  from a b c d e f show ?thesis by blast
qed

theorem stop_finalises_iff_nonempty_witness:
  "audioChunks initial_rec_state = [] \<and>
   delivered (onstop True initial_rec_state) = [] \<and>
   errorState (onstop True initial_rec_state) = None \<and>
   audioChunks (initial_rec_state\<lparr>audioChunks :=
      [\<lparr>bytes = [26, 69], mime = ''audio/webm''\<rparr>, \<lparr>bytes = [7], mime = ''audio/webm''\<rparr>]\<rparr>) \<noteq> [] \<and>
   delivered (onstop True (initial_rec_state\<lparr>audioChunks :=
      [\<lparr>bytes = [26, 69], mime = ''audio/webm''\<rparr>, \<lparr>bytes = [7], mime = ''audio/webm''\<rparr>]\<rparr>)) =
     [\<lparr>bytes = [26, 69, 7], mime = ''audio/webm''\<rparr>]"
proof -
  have e: "audioChunks initial_rec_state = []" by (simp add: initial_rec_state_def)
  have n: "audioChunks (initial_rec_state\<lparr>audioChunks :=
      [\<lparr>bytes = [26, 69], mime = ''audio/webm''\<rparr>, \<lparr>bytes = [7], mime = ''audio/webm''\<rparr>]\<rparr>) \<noteq> []"
    by simp
  from e stop_finalises_iff_nonempty [of initial_rec_state True, THEN conjunct1]
  have 1: "delivered (onstop True initial_rec_state) = [] \<and>
           errorState (onstop True initial_rec_state) = None"
    by (simp add: initial_rec_state_def)
  from n stop_finalises_iff_nonempty [of "initial_rec_state\<lparr>audioChunks :=
      [\<lparr>bytes = [26, 69], mime = ''audio/webm''\<rparr>, \<lparr>bytes = [7], mime = ''audio/webm''\<rparr>]\<rparr>" True,
      THEN conjunct2, THEN conjunct1]
  have 2: "delivered (onstop True (initial_rec_state\<lparr>audioChunks :=
      [\<lparr>bytes = [26, 69], mime = ''audio/webm''\<rparr>, \<lparr>bytes = [7], mime = ''audio/webm''\<rparr>]\<rparr>)) =
     [\<lparr>bytes = [26, 69, 7], mime = ''audio/webm''\<rparr>]"
    by (simp add: initial_rec_state_def new_Blob_def)
  from e n 1 2 show ?thesis by blast
qed

lemma rec_step_denied:
  assumes "permissionDenied s"
  shows "permissionDenied (rec_step cb s e) \<and>
         getUserMediaCalls (rec_step cb s e) = getUserMediaCalls s"
proof (cases e)
  case (StartRecording env)
  with assms show ?thesis by (simp add: startRecording_def)
next
  case StopRecording
  with assms show ?thesis by (simp add: stopRecording_def Let_def)
next
  case (DataAvailable d)
  with assms show ?thesis
    by (simp add: ondataavailable_def ondataavailable_cap_def Let_def)
next
  case RecorderStop
  with assms show ?thesis by (simp add: onstop_def Let_def)
next
  case TimerTick
  with assms show ?thesis by (simp add: timer_tick_def)
next
  case ClearError
  with assms show ?thesis by (simp add: clearError_def)
qed

lemma rec_run_denied:
  "permissionDenied s \<Longrightarrow>
     permissionDenied (rec_run cb s evs) \<and>
     getUserMediaCalls (rec_run cb s evs) = getUserMediaCalls s"
proof (induction evs arbitrary: s)
  case Nil
  then show ?case by (simp add: rec_run_def)
next
  case (Cons e evs)
  from rec_step_denied [OF Cons.prems, of cb e]
  have step: "permissionDenied (rec_step cb s e)"
    and calls: "getUserMediaCalls (rec_step cb s e) = getUserMediaCalls s" by auto
  from Cons.IH [OF step] calls show ?case by (simp add: rec_run_def)
qed

lemma still_blocked_distinct:
  "still_blocked \<noteq> access_denied_query \<and> still_blocked \<noteq> access_denied_catch \<and>
   still_blocked \<noteq> mic_error"
  by (simp add: still_blocked_def access_denied_query_def access_denied_catch_def mic_error_def)

text \<open>
  Claim C4. Once \<open>permissionDenied\<close> is set, it stays set and the count of
  \<open>getUserMedia\<close> calls stays where it was through every run of events of the hook,
  calls of \<open>startRecording\<close> included; each such call only sets the error
  \<open>still_blocked\<close>, which differs from the three other errors the hook reports.
\<close>

theorem denied_start_never_acquires:
  assumes "permissionDenied s"
  shows "getUserMediaCalls (rec_run cb s evs) = getUserMediaCalls s \<and>
         permissionDenied (rec_run cb s evs) \<and>
         startRecording env (rec_run cb s evs) =
           (rec_run cb s evs)\<lparr>errorState := Some still_blocked\<rparr> \<and>
         still_blocked \<noteq> access_denied_query \<and> still_blocked \<noteq> access_denied_catch \<and>
         still_blocked \<noteq> mic_error"
proof -
  from rec_run_denied [OF assms, of cb evs]
  have d: "permissionDenied (rec_run cb s evs)"
    and c: "getUserMediaCalls (rec_run cb s evs) = getUserMediaCalls s" by auto
  from d have "startRecording env (rec_run cb s evs) =
           (rec_run cb s evs)\<lparr>errorState := Some still_blocked\<rparr>"
    by (simp add: startRecording_def)
  with c d still_blocked_distinct show ?thesis by blast
qed

theorem denied_start_never_acquires_witness:
  "permissionDenied
     (startRecording \<lparr>permissions = QueryState ''denied'', getUserMedia = Inr (),
                      contextError = None, timerId = 1\<rparr> initial_rec_state) \<and>
   getUserMediaCalls
     (rec_run True
        (startRecording \<lparr>permissions = QueryState ''denied'', getUserMedia = Inr (),
                         contextError = None, timerId = 1\<rparr> initial_rec_state)
        [StartRecording \<lparr>permissions = QueryState ''granted'', getUserMedia = Inr (),
                         contextError = None, timerId = 2\<rparr>,
         ClearError,
         StartRecording \<lparr>permissions = NoPermissionsAPI, getUserMedia = Inr (),
                         contextError = None, timerId = 3\<rparr>]) = 0 \<and>
   errorState
     (rec_run True
        (startRecording \<lparr>permissions = QueryState ''denied'', getUserMedia = Inr (),
                         contextError = None, timerId = 1\<rparr> initial_rec_state)
        [StartRecording \<lparr>permissions = QueryState ''granted'', getUserMedia = Inr (),
                         contextError = None, timerId = 2\<rparr>,
         ClearError,
         StartRecording \<lparr>permissions = NoPermissionsAPI, getUserMedia = Inr (),
                         contextError = None, timerId = 3\<rparr>]) = Some still_blocked"
proof -
  have h: "permissionDenied
     (startRecording \<lparr>permissions = QueryState ''denied'', getUserMedia = Inr (),
                      contextError = None, timerId = 1\<rparr> initial_rec_state)"
    by (simp add: startRecording_def initial_rec_state_def)
  have c0: "getUserMediaCalls
     (startRecording \<lparr>permissions = QueryState ''denied'', getUserMedia = Inr (),
                      contextError = None, timerId = 1\<rparr> initial_rec_state) = 0"
    by (simp add: startRecording_def initial_rec_state_def)
  note t = denied_start_never_acquires [OF h, of True]
  from t [of "[StartRecording \<lparr>permissions = QueryState ''granted'', getUserMedia = Inr (),
                         contextError = None, timerId = 2\<rparr>,
         ClearError,
         StartRecording \<lparr>permissions = NoPermissionsAPI, getUserMedia = Inr (),
                         contextError = None, timerId = 3\<rparr>]"] c0
  have 1: "getUserMediaCalls
     (rec_run True
        (startRecording \<lparr>permissions = QueryState ''denied'', getUserMedia = Inr (),
                         contextError = None, timerId = 1\<rparr> initial_rec_state)
        [StartRecording \<lparr>permissions = QueryState ''granted'', getUserMedia = Inr (),
                         contextError = None, timerId = 2\<rparr>,
         ClearError,
         StartRecording \<lparr>permissions = NoPermissionsAPI, getUserMedia = Inr (),
                         contextError = None, timerId = 3\<rparr>]) = 0"
    by simp
  from t [of "[StartRecording \<lparr>permissions = QueryState ''granted'', getUserMedia = Inr (),
                         contextError = None, timerId = 2\<rparr>,
         ClearError]" "\<lparr>permissions = NoPermissionsAPI, getUserMedia = Inr (),
                         contextError = None, timerId = 3\<rparr>"]
  have 2: "errorState
     (rec_run True
        (startRecording \<lparr>permissions = QueryState ''denied'', getUserMedia = Inr (),
                         contextError = None, timerId = 1\<rparr> initial_rec_state)
        [StartRecording \<lparr>permissions = QueryState ''granted'', getUserMedia = Inr (),
                         contextError = None, timerId = 2\<rparr>,
         ClearError,
         StartRecording \<lparr>permissions = NoPermissionsAPI, getUserMedia = Inr (),
                         contextError = None, timerId = 3\<rparr>]) = Some still_blocked"
    by (simp add: rec_run_def)
  from h 1 2 show ?thesis by blast
qed

section \<open>Properties of the live coach\<close>

lemma onmessage_decoded:
  assumes "a \<noteq> []" "outputNodeRef s" "decode a = Inr b"
  shows "onmessage decode s (Some a) t =
           s\<lparr>started := started s @ [(b, if nextStartTimeRef s < t then t else nextStartTimeRef s)],
             nextStartTimeRef := (if nextStartTimeRef s < t then t else nextStartTimeRef s) + duration b\<rparr>"
  using assms by (simp add: onmessage_def Let_def)

lemma onmessage_failed:
  assumes "decode a = Inl e"
  shows "onmessage decode s (Some a) t =
           (if a \<noteq> [] \<and> outputNodeRef s
            then s\<lparr>consoleErrors := consoleErrors s @ [''Error decoding audio chunk'']\<rparr> else s)"
  using assms by (simp add: onmessage_def)

lemma onmessage_outputNodeRef: "outputNodeRef (onmessage decode s m t) = outputNodeRef s"
  by (simp add: onmessage_def Let_def split: option.split sum.split)

lemma onmessage_schedule_cong:
  assumes "started s = started s'" "nextStartTimeRef s = nextStartTimeRef s'"
    "outputNodeRef s = outputNodeRef s'"
  shows "started (onmessage decode s m t) = started (onmessage decode s' m t) \<and>
         nextStartTimeRef (onmessage decode s m t) = nextStartTimeRef (onmessage decode s' m t) \<and>
         outputNodeRef (onmessage decode s m t) = outputNodeRef (onmessage decode s' m t)"
  using assms by (simp add: onmessage_def Let_def split: option.split sum.split)

lemma onmessages_schedule_cong:
  assumes "started s = started s'" "nextStartTimeRef s = nextStartTimeRef s'"
    "outputNodeRef s = outputNodeRef s'"
  shows "started (onmessages decode s ms) = started (onmessages decode s' ms) \<and>
         nextStartTimeRef (onmessages decode s ms) = nextStartTimeRef (onmessages decode s' ms)"
  using assms
proof (induction ms arbitrary: s s')
  case Nil
  then show ?case by (simp add: onmessages_def)
next
  case (Cons x ms)
  obtain m t where x: "x = (m, t)" by (cases x)
  from onmessage_schedule_cong [OF Cons.prems, of decode m t]
  have "started (onmessages decode (onmessage decode s m t) ms) =
          started (onmessages decode (onmessage decode s' m t) ms) \<and>
        nextStartTimeRef (onmessages decode (onmessage decode s m t) ms) =
          nextStartTimeRef (onmessages decode (onmessage decode s' m t) ms)"
    by (intro Cons.IH) auto
  then show ?case by (simp add: onmessages_def x)
qed

lemma onmessages_append:
  "onmessages decode s (ms @ ms') = onmessages decode (onmessages decode s ms) ms'"
  by (simp add: onmessages_def)

lemma onmessages_single: "onmessages decode s [(m, t)] = onmessage decode s m t"
  by (simp add: onmessages_def)

lemma connected_sample:
  "outputNodeRef (onopen (connect sample_connect_env initial_live_state)) \<and>
   nextStartTimeRef (onopen (connect sample_connect_env initial_live_state)) = 0 \<and>
   started (onopen (connect sample_connect_env initial_live_state)) = []"
  by (simp add: onopen_def connect_def sample_connect_env_def initial_live_state_def Let_def)

lemma three_segments:
  assumes "x \<noteq> []" "y \<noteq> []" "z \<noteq> []"
    and "decode x = Inr bufx" "decode y = Inr bufy" "decode z = Inr bufz"
    and "duration bufx = 1" "duration bufy = 1.5" "duration bufz = 0.5"
    and "outputNodeRef s" "nextStartTimeRef s \<le> tzero"
  shows "started (onmessages decode s [(Some x, tzero), (Some y, tzero + 0.2), (Some z, tzero + 5)]) =
           started s @ [(bufx, tzero), (bufy, tzero + 1), (bufz, tzero + 5)]"
proof -
  let ?s1 = "onmessage decode s (Some x) tzero"
  let ?s2 = "onmessage decode ?s1 (Some y) (tzero + 0.2)"
  let ?s3 = "onmessage decode ?s2 (Some z) (tzero + 5)"
  have s1: "?s1 = s\<lparr>started := started s @ [(bufx, tzero)], nextStartTimeRef := tzero + 1\<rparr>"
    using assms by (simp add: onmessage_decoded)
  have s2: "?s2 = s\<lparr>started := started s @ [(bufx, tzero), (bufy, tzero + 1)],
                     nextStartTimeRef := tzero + 2.5\<rparr>"
    using assms by (simp add: s1 onmessage_decoded)
  have s3: "started ?s3 = started s @ [(bufx, tzero), (bufy, tzero + 1), (bufz, tzero + 5)]"
    using assms by (simp add: s2 onmessage_decoded)
  have run: "onmessages decode s [(Some x, tzero), (Some y, tzero + 0.2), (Some z, tzero + 5)] = ?s3"
    by (simp add: onmessages_def)
  show ?thesis unfolding run by (rule s3)
qed

text \<open>
  Claim C2. A decoded segment is started at \<open>nextStartTimeRef\<close>, after that has
  been moved up to the current time of the output clock when it was behind it, and
  \<open>nextStartTimeRef\<close> then advances by the duration of the segment. So three
  segments of durations 1, 1.5 and 0.5 that arrive when the clock reads \<open>tzero\<close>,
  \<open>tzero + 0.2\<close> and \<open>tzero + 5\<close>, with \<open>nextStartTimeRef\<close> not ahead of \<open>tzero\<close> at the
  first arrival (\<open>connect\<close> sets it to 0), start at \<open>tzero\<close>, \<open>tzero + 1\<close> and
  \<open>tzero + 5\<close>.
\<close>

theorem segments_start_at_nextStartTime:
  "(a \<noteq> [] \<and> outputNodeRef r \<and> decode a = Inr b \<longrightarrow>
      started (onmessage decode r (Some a) t) =
        started r @ [(b, if nextStartTimeRef r < t then t else nextStartTimeRef r)] \<and>
      nextStartTimeRef (onmessage decode r (Some a) t) =
        (if nextStartTimeRef r < t then t else nextStartTimeRef r) + duration b) \<and>
   (x \<noteq> [] \<and> y \<noteq> [] \<and> z \<noteq> [] \<and>
    decode x = Inr bufx \<and> decode y = Inr bufy \<and> decode z = Inr bufz \<and>
    duration bufx = 1 \<and> duration bufy = 1.5 \<and> duration bufz = 0.5 \<and>
    outputNodeRef s \<and> nextStartTimeRef s \<le> tzero \<longrightarrow>
      started (onmessages decode s [(Some x, tzero), (Some y, tzero + 0.2), (Some z, tzero + 5)]) =
        started s @ [(bufx, tzero), (bufy, tzero + 1), (bufz, tzero + 5)])"
proof (intro conjI impI)
  assume h: "a \<noteq> [] \<and> outputNodeRef r \<and> decode a = Inr b"
  then have eq: "onmessage decode r (Some a) t =
      r\<lparr>started := started r @ [(b, if nextStartTimeRef r < t then t else nextStartTimeRef r)],
        nextStartTimeRef := (if nextStartTimeRef r < t then t else nextStartTimeRef r) + duration b\<rparr>"
    by (simp add: onmessage_decoded)
  show "started (onmessage decode r (Some a) t) =
      started r @ [(b, if nextStartTimeRef r < t then t else nextStartTimeRef r)]"
    unfolding eq by simp
  show "nextStartTimeRef (onmessage decode r (Some a) t) =
      (if nextStartTimeRef r < t then t else nextStartTimeRef r) + duration b"
    unfolding eq by simp
next
  assume "x \<noteq> [] \<and> y \<noteq> [] \<and> z \<noteq> [] \<and>
    decode x = Inr bufx \<and> decode y = Inr bufy \<and> decode z = Inr bufz \<and>
    duration bufx = 1 \<and> duration bufy = 1.5 \<and> duration bufz = 0.5 \<and>
    outputNodeRef s \<and> nextStartTimeRef s \<le> tzero"
  then show "started (onmessages decode s [(Some x, tzero), (Some y, tzero + 0.2), (Some z, tzero + 5)]) =
      started s @ [(bufx, tzero), (bufy, tzero + 1), (bufz, tzero + 5)]"
    by (intro three_segments) simp_all
qed

theorem segments_start_at_nextStartTime_witness:
  "''AAAA'' \<noteq> [] \<and> ''AAAAAA=='' \<noteq> [] \<and> ''AA=='' \<noteq> [] \<and>
   sample_decode ''AAAA'' = Inr \<lparr>pcm = [0, 0], duration = 1\<rparr> \<and>
   sample_decode ''AAAAAA=='' = Inr \<lparr>pcm = [0, 0, 0], duration = 1.5\<rparr> \<and>
   sample_decode ''AA=='' = Inr \<lparr>pcm = [0], duration = 0.5\<rparr> \<and>
   outputNodeRef (onopen (connect sample_connect_env initial_live_state)) \<and>
   nextStartTimeRef (onopen (connect sample_connect_env initial_live_state)) \<le> 3 \<and>
   started (onmessage sample_decode (onopen (connect sample_connect_env initial_live_state))
      (Some ''AAAA'') 3) = [(\<lparr>pcm = [0, 0], duration = 1\<rparr>, 3)] \<and>
   nextStartTimeRef (onmessage sample_decode (onopen (connect sample_connect_env initial_live_state))
      (Some ''AAAA'') 3) = 4 \<and>
   started (onmessages sample_decode (onopen (connect sample_connect_env initial_live_state))
      [(Some ''AAAA'', 3), (Some ''AAAAAA=='', 3 + 0.2), (Some ''AA=='', 3 + 5)]) =
     [(\<lparr>pcm = [0, 0], duration = 1\<rparr>, 3), (\<lparr>pcm = [0, 0, 0], duration = 1.5\<rparr>, 4),
      (\<lparr>pcm = [0], duration = 0.5\<rparr>, 8)]"
proof -
  have n: "''AAAA'' \<noteq> []" "''AAAAAA=='' \<noteq> []" "''AA=='' \<noteq> []" by simp_all
  have d: "sample_decode ''AAAA'' = Inr \<lparr>pcm = [0, 0], duration = 1\<rparr>"
    "sample_decode ''AAAAAA=='' = Inr \<lparr>pcm = [0, 0, 0], duration = 1.5\<rparr>"
    "sample_decode ''AA=='' = Inr \<lparr>pcm = [0], duration = 0.5\<rparr>"
    by (simp_all add: sample_decode_def)
  have o: "outputNodeRef (onopen (connect sample_connect_env initial_live_state))"
    using connected_sample by simp
  have t: "nextStartTimeRef (onopen (connect sample_connect_env initial_live_state)) \<le> 3"
    using connected_sample by simp
  note inst = segments_start_at_nextStartTime [where decode = sample_decode
      and a = "''AAAA''" and b = "\<lparr>pcm = [0, 0], duration = 1\<rparr>"
      and r = "onopen (connect sample_connect_env initial_live_state)" and t = 3
      and x = "''AAAA''" and bufx = "\<lparr>pcm = [0, 0], duration = 1\<rparr>"
      and y = "''AAAAAA==''" and bufy = "\<lparr>pcm = [0, 0, 0], duration = 1.5\<rparr>"
      and z = "''AA==''" and bufz = "\<lparr>pcm = [0], duration = 0.5\<rparr>"
      and s = "onopen (connect sample_connect_env initial_live_state)" and tzero = 3]
  from inst [THEN conjunct1] n d o
  have step: "started (onmessage sample_decode (onopen (connect sample_connect_env initial_live_state))
      (Some ''AAAA'') 3) = [(\<lparr>pcm = [0, 0], duration = 1\<rparr>, 3)] \<and>
    nextStartTimeRef (onmessage sample_decode (onopen (connect sample_connect_env initial_live_state))
      (Some ''AAAA'') 3) = 4"
    using connected_sample by simp
  from inst [THEN conjunct2] n d o t
  have run: "started (onmessages sample_decode (onopen (connect sample_connect_env initial_live_state))
      [(Some ''AAAA'', 3), (Some ''AAAAAA=='', 3 + 0.2), (Some ''AA=='', 3 + 5)]) =
     [(\<lparr>pcm = [0, 0], duration = 1\<rparr>, 3), (\<lparr>pcm = [0, 0, 0], duration = 1.5\<rparr>, 4),
      (\<lparr>pcm = [0], duration = 0.5\<rparr>, 8)]"
    using connected_sample by simp
  from n d o t step run show ?thesis by blast
qed

text \<open>
  Claim C8. A message whose payload fails to decode leaves \<open>nextStartTimeRef\<close> and
  the started buffers as they were: the handler returns the state it got, with one more
  line on the console when it reached the decoder. The next message is therefore
  scheduled exactly as if the failed one had never arrived, and so is every message
  after a failed one anywhere in a run.
\<close>

theorem decode_failure_leaves_schedule:
  assumes "decode a = Inl e"
  shows "nextStartTimeRef (onmessage decode s (Some a) t) = nextStartTimeRef s \<and>
         started (onmessage decode s (Some a) t) = started s \<and>
         onmessage decode s (Some a) t =
           (if a \<noteq> [] \<and> outputNodeRef s
            then s\<lparr>consoleErrors := consoleErrors s @ [''Error decoding audio chunk'']\<rparr> else s) \<and>
         started (onmessage decode (onmessage decode s (Some a) t) m' t') =
           started (onmessage decode s m' t') \<and>
         nextStartTimeRef (onmessage decode (onmessage decode s (Some a) t) m' t') =
           nextStartTimeRef (onmessage decode s m' t') \<and>
         started (onmessages decode s (earlier @ [(Some a, t)] @ later)) =
           started (onmessages decode s (earlier @ later)) \<and>
         nextStartTimeRef (onmessages decode s (earlier @ [(Some a, t)] @ later)) =
           nextStartTimeRef (onmessages decode s (earlier @ later))"
proof -
  have same: "started (onmessage decode r (Some a) t) = started r \<and>
              nextStartTimeRef (onmessage decode r (Some a) t) = nextStartTimeRef r \<and>
              outputNodeRef (onmessage decode r (Some a) t) = outputNodeRef r" for r
    by (simp add: onmessage_failed [where decode = decode and a = a, OF assms])
  have one: "started (onmessage decode (onmessage decode s (Some a) t) m' t') =
               started (onmessage decode s m' t') \<and>
             nextStartTimeRef (onmessage decode (onmessage decode s (Some a) t) m' t') =
               nextStartTimeRef (onmessage decode s m' t')"
    using onmessage_schedule_cong [of "onmessage decode s (Some a) t" s decode m' t'] same [of s]
    by simp
  let ?r = "onmessages decode s earlier"
  have run: "started (onmessages decode (onmessage decode ?r (Some a) t) later) =
               started (onmessages decode ?r later) \<and>
             nextStartTimeRef (onmessages decode (onmessage decode ?r (Some a) t) later) =
               nextStartTimeRef (onmessages decode ?r later)"
    using onmessages_schedule_cong [of "onmessage decode ?r (Some a) t" ?r decode later]
      same [of ?r] by simp
  have split: "onmessages decode s (earlier @ [(Some a, t)] @ later) =
               onmessages decode (onmessage decode ?r (Some a) t) later"
    "onmessages decode s (earlier @ later) = onmessages decode ?r later"
    by (simp_all add: onmessages_def)
  from same [of s] onmessage_failed [where decode = decode and a = a, OF assms, of s t] one run show ?thesis
    unfolding split by blast
qed

theorem decode_failure_leaves_schedule_witness:
  "sample_decode ''!!!!'' = Inl ''InvalidCharacterError'' \<and>
   nextStartTimeRef (onmessage sample_decode (onopen (connect sample_connect_env initial_live_state))
      (Some ''!!!!'') 3) = 0 \<and>
   started (onmessage sample_decode
      (onmessage sample_decode (onopen (connect sample_connect_env initial_live_state)) (Some ''!!!!'') 3)
      (Some ''AAAA'') 4) = [(\<lparr>pcm = [0, 0], duration = 1\<rparr>, 4)] \<and>
   consoleErrors (onmessage sample_decode (onopen (connect sample_connect_env initial_live_state))
      (Some ''!!!!'') 3) = [''Error decoding audio chunk'']"
proof -
  have f: "sample_decode ''!!!!'' = Inl ''InvalidCharacterError''"
    by (simp add: sample_decode_def)
  have ok: "started (onmessage sample_decode (onopen (connect sample_connect_env initial_live_state))
      (Some ''AAAA'') 4) = [(\<lparr>pcm = [0, 0], duration = 1\<rparr>, 4)]"
    using connected_sample by (simp add: onmessage_def sample_decode_def Let_def)
  have init: "consoleErrors (onopen (connect sample_connect_env initial_live_state)) = []"
    by (simp add: onopen_def connect_def sample_connect_env_def initial_live_state_def Let_def)
  note t = decode_failure_leaves_schedule [where decode = sample_decode and a = "''!!!!''"
      and s = "onopen (connect sample_connect_env initial_live_state)" and t = 3
      and m' = "Some ''AAAA''" and t' = 4 and earlier = "[]" and later = "[]", OF f]
  have 1: "nextStartTimeRef (onmessage sample_decode
      (onopen (connect sample_connect_env initial_live_state)) (Some ''!!!!'') 3) = 0"
    unfolding t [THEN conjunct1] using connected_sample by simp
  have 2: "started (onmessage sample_decode
      (onmessage sample_decode (onopen (connect sample_connect_env initial_live_state)) (Some ''!!!!'') 3)
      (Some ''AAAA'') 4) = [(\<lparr>pcm = [0, 0], duration = 1\<rparr>, 4)]"
    unfolding t [THEN conjunct2, THEN conjunct2, THEN conjunct2, THEN conjunct1] by (rule ok)
  have 3: "consoleErrors (onmessage sample_decode (onopen (connect sample_connect_env initial_live_state))
      (Some ''!!!!'') 3) = [''Error decoding audio chunk'']"
    unfolding t [THEN conjunct2, THEN conjunct2, THEN conjunct1]
    using connected_sample init by simp
  from f 1 2 3 show ?thesis by blast
qed

text \<open>
  Claim C6, evaluated on the code. The handler installed by \<open>onopen\<close> tests the
  \<open>isMuted\<close> of the render in which \<open>connect\<close> was called, not the current flag.
  After connecting unmuted and muting, an audio-process event still sends its frame.
  After connecting while muted (the flag survives \<open>disconnect\<close>) and unmuting, an
  audio-process event sends nothing.
\<close>

theorem installed_handler_ignores_mute_flag:
  "isMuted (toggleMute (onopen (connect sample_connect_env initial_live_state))) \<and>
   sentFrames (onaudioprocess encode
      (toggleMute (onopen (connect sample_connect_env initial_live_state))) frame) =
     [(''audio/pcm;rate=16000'', encode frame)] \<and>
   \<not> isMuted (toggleMute (onopen (connect sample_connect_env
        (disconnect (toggleMute (onopen (connect sample_connect_env initial_live_state))))))) \<and>
   sentFrames (onaudioprocess encode
      (toggleMute (onopen (connect sample_connect_env
        (disconnect (toggleMute (onopen (connect sample_connect_env initial_live_state)))))))
      frame) = []"
  by (simp add: onaudioprocess_def toggleMute_def onopen_def connect_def disconnect_def
      sample_connect_env_def initial_live_state_def truthy_id_def Let_def)

text \<open>
  Claim C7, evaluated on the code. \<open>disconnect\<close> does not change whether the
  microphone tracks are live or whether the remote session is open; it resets the
  status and clears the two context refs. After a connected
  session it has cancelled the animation frame, closed the output and the input
  context and reset \<open>isConnected\<close> and \<open>status\<close>, while the tracks are still live
  and the session is still open.
\<close>

theorem disconnect_leaves_tracks_and_session:
  "micTracksLive (disconnect s) = micTracksLive s \<and>
   sessionOpen (disconnect s) = sessionOpen s \<and>
   status (disconnect s) = Idle \<and> \<not> isConnected (disconnect s) \<and>
   audioContextRef (disconnect s) = None \<and> inputContextRef (disconnect s) = None \<and>
   micTracksLive (disconnect (onopen (connect sample_connect_env initial_live_state))) \<and>
   sessionOpen (disconnect (onopen (connect sample_connect_env initial_live_state))) \<and>
   status (disconnect (onopen (connect sample_connect_env initial_live_state))) = Idle \<and>
   \<not> isConnected (disconnect (onopen (connect sample_connect_env initial_live_state))) \<and>
   cancelledFrames (disconnect (onopen (connect sample_connect_env initial_live_state))) = [1] \<and>
   closedContexts (disconnect (onopen (connect sample_connect_env initial_live_state))) = [2, 1]"
proof -
  have a: "micTracksLive (disconnect s) = micTracksLive s \<and>
           sessionOpen (disconnect s) = sessionOpen s \<and>
           status (disconnect s) = Idle \<and> \<not> isConnected (disconnect s) \<and>
           audioContextRef (disconnect s) = None \<and> inputContextRef (disconnect s) = None"
    by (simp add: disconnect_def Let_def split: option.split)
  have b: "micTracksLive (disconnect (onopen (connect sample_connect_env initial_live_state))) \<and>
   sessionOpen (disconnect (onopen (connect sample_connect_env initial_live_state))) \<and>
   status (disconnect (onopen (connect sample_connect_env initial_live_state))) = Idle \<and>
   \<not> isConnected (disconnect (onopen (connect sample_connect_env initial_live_state))) \<and>
   cancelledFrames (disconnect (onopen (connect sample_connect_env initial_live_state))) = [1] \<and>
   closedContexts (disconnect (onopen (connect sample_connect_env initial_live_state))) = [2, 1]"
    by (simp add: onopen_def connect_def disconnect_def
      sample_connect_env_def initial_live_state_def truthy_id_def Let_def)
  from a b show ?thesis by blast
qed

section \<open>Properties of the failure categories\<close>

lemma spec_category_unfold:
  "spec_category d =
     (if str_includes d ''safety'' \<or> str_includes d ''blocked'' then SafetyFlag
      else if str_includes d ''429'' \<or> str_includes d ''resource exhausted'' then RateLimit
      else if str_includes d ''no response generated'' \<or> str_includes d ''candidate''
      then UnclearInput
      else if str_includes d ''network'' \<or> str_includes d ''fetch'' then Network
      else Generic)"
  by (simp add: spec_category_def category_marks_def)

lemma title_inj:
  "(draft_title c = draft_title c') = (c = c') \<and> (research_title c = research_title c') = (c = c')"
  by (cases c; cases c') simp_all

text \<open>
  Claim C9. Each of the two \<open>catch\<close> blocks, given a failure with a description,
  sets the error whose title belongs to the category that the specification's ordered
  scan assigns to the lower-cased description: safety flag first, then rate limit,
  unclear input, network, and generic when no mark occurs. This holds whatever
  \<open>toLowerCase\<close> does to the description. The titles of distinct categories differ,
  so the title tells the category. A description carrying marks of several categories
  gets the first of them in that order.
\<close>

theorem failure_category_by_priority:
  "map_sum id title (processAudioBlob_catch lower (Thrown desc)) =
     Inr (draft_title (spec_category (lower desc))) \<and>
   map_sum id title (handleRecordingStop_catch lower (Thrown desc)) =
     Inr (research_title (spec_category (lower desc))) \<and>
   title (processAudioBlob_error d) = draft_title (spec_category d) \<and>
   title (handleRecordingStop_error d) = research_title (spec_category d) \<and>
   (draft_title c = draft_title c') = (c = c') \<and>
   (research_title c = research_title c') = (c = c') \<and>
   spec_category ''error: network fetch failed with 429, candidate blocked'' = SafetyFlag \<and>
   spec_category ''error: network fetch failed with 429, no candidate'' = RateLimit \<and>
   spec_category ''error: network fetch failed, no candidate'' = UnclearInput \<and>
   spec_category ''typeerror: failed to fetch'' = Network \<and>
   spec_category ''error: internal'' = Generic \<and>
   map_sum id title (processAudioBlob_catch ascii_toLowerCase
      (Thrown ''Error: Network fetch failed with 429, candidate BLOCKED'')) =
     Inr ''Content Flagged'' \<and>
   map_sum id title (handleRecordingStop_catch ascii_toLowerCase
      (Thrown ''Error: Network fetch failed with 429, no Candidate'')) =
     Inr ''System Busy''"
proof -
  have a: "title (processAudioBlob_error d) = draft_title (spec_category d)" for d
    by (simp add: processAudioBlob_error_def spec_category_unfold)
  have b: "title (handleRecordingStop_error d) = research_title (spec_category d)" for d
    by (simp add: handleRecordingStop_error_def spec_category_unfold)
  have ca: "map_sum id title (processAudioBlob_catch lower (Thrown desc)) =
     Inr (draft_title (spec_category (lower desc)))" for lower desc
    by (simp add: processAudioBlob_catch_def a)
  have cb: "map_sum id title (handleRecordingStop_catch lower (Thrown desc)) =
     Inr (research_title (spec_category (lower desc)))" for lower desc
    by (simp add: handleRecordingStop_catch_def b)
  have e1: "spec_category ''error: network fetch failed with 429, candidate blocked'' = SafetyFlag"
    by (simp add: spec_category_unfold)
  have e2: "spec_category ''error: network fetch failed with 429, no candidate'' = RateLimit"
    by (simp add: spec_category_unfold)
  have e3: "spec_category ''error: network fetch failed, no candidate'' = UnclearInput"
    by (simp add: spec_category_unfold)
  have e4: "spec_category ''typeerror: failed to fetch'' = Network"
    by (simp add: spec_category_unfold)
  have e5: "spec_category ''error: internal'' = Generic"
    by (simp add: spec_category_unfold)
  have l1: "ascii_toLowerCase ''Error: Network fetch failed with 429, candidate BLOCKED'' =
           ''error: network fetch failed with 429, candidate blocked''"
    by code_simp
  have l2: "ascii_toLowerCase ''Error: Network fetch failed with 429, no Candidate'' =
           ''error: network fetch failed with 429, no candidate''"
    by code_simp
  have e6: "map_sum id title (processAudioBlob_catch ascii_toLowerCase
      (Thrown ''Error: Network fetch failed with 429, candidate BLOCKED'')) =
     Inr ''Content Flagged''"
    unfolding ca l1 e1 by simp
  have e7: "map_sum id title (handleRecordingStop_catch ascii_toLowerCase
      (Thrown ''Error: Network fetch failed with 429, no Candidate'')) =
     Inr ''System Busy''"
    unfolding cb l2 e2 by simp
  from a [of d] b [of d] ca [of lower desc] cb [of lower desc] title_inj [of c c']
    e1 e2 e3 e4 e5 e6 e7
  show ?thesis by blast
qed

end
